theory Spec2Isabelle
  imports Main "HOL-Library.AList" "HOL-Library.Sublist"
begin

section \<open>JavaScript values and the string and array primitives the parsers use\<close>

text \<open>
  The parsers of \<^verbatim>\<open>api/utils/parsers.js\<close> are five functions over plain values.
  A string is a list of code units; the model has the code units U+0000 to U+00FF
  (\<^typ>\<open>char\<close>), which is where every character the code tests lies (newline, space,
  colon, the fence, the path prefixes). Numbers are the integers, arrays are arrays of
  strings (the delimiter lists), objects are lists of properties.
\<close>

datatype jsval =
    JUndefined
  | JNull
  | JBool bool
  | JNum int
  | JStr string
  | JArr "string list"
  | JObj "(string \<times> jsval) list"

text \<open>\<^verbatim>\<open>!v\<close> is the negation of this.\<close>

fun truthy :: "jsval \<Rightarrow> bool" where
  "truthy JUndefined = False"
| "truthy JNull = False"
| "truthy (JBool b) = b"
| "truthy (JNum n) = (n \<noteq> 0)"
| "truthy (JStr s) = (s \<noteq> [])"
| "truthy (JArr xs) = True"
| "truthy (JObj ps) = True"

fun isString :: "jsval \<Rightarrow> bool" where
  "isString (JStr s) = True"
| "isString v = False"

text \<open>What the code throws or meets: the four messages of \<^verbatim>\<open>extractBackticks\<close>, the one of
  \<^verbatim>\<open>parseYaml\<close>, and the TypeError of calling a string method on a value that has none.\<close>

datatype error =
    NoOpeningBackticks
  | NoClosingBackticks
  | MalformedBacktickStructure
  | EmptyContent
  | YamlNullOrUndefined
  | TypeError

abbreviation NL :: char where
  "NL \<equiv> CHR 0x0A"

text \<open>\<^verbatim>\<open>s.split(sep)\<close> for a one-character separator: always at least one piece.\<close>

fun split_str :: "char \<Rightarrow> string \<Rightarrow> string list" where
  "split_str sep [] = [[]]"
| "split_str sep (c # cs) =
     (if c = sep then [] # split_str sep cs
      else (let pieces = split_str sep cs in (c # hd pieces) # tl pieces))"

text \<open>\<^verbatim>\<open>xs.join(sep)\<close> on an array of strings.\<close>

fun join_str :: "string \<Rightarrow> string list \<Rightarrow> string" where
  "join_str sep [] = []"
| "join_str sep [x] = x"
| "join_str sep (x # y # ys) = x @ sep @ join_str sep (y # ys)"

text \<open>\<^verbatim>\<open>s.includes(sub)\<close>.\<close>

fun includes_str :: "string \<Rightarrow> string \<Rightarrow> bool" where
  "includes_str [] sub = (sub = [])"
| "includes_str (c # cs) sub = (prefix sub (c # cs) \<or> includes_str cs sub)"

text \<open>White space and line terminators of \<^verbatim>\<open>trim\<close> below U+0100: tab, line feed, vertical
  tab, form feed, carriage return, space, no-break space.\<close>

definition isWhite :: "char \<Rightarrow> bool" where
  "isWhite c = ((of_char c :: nat) \<in> {9, 10, 11, 12, 13, 32, 160})"

definition trim :: "string \<Rightarrow> string" where
  "trim s = rev (dropWhile isWhite (rev (dropWhile isWhite s)))"

text \<open>\<^verbatim>\<open>xs.findIndex(p)\<close>: the first index where \<open>p\<close> holds, or -1.\<close>

fun findIndex :: "('a \<Rightarrow> bool) \<Rightarrow> 'a list \<Rightarrow> int" where
  "findIndex p [] = - 1"
| "findIndex p (x # xs) =
     (if p x then 0
      else (let r = findIndex p xs in if r = - 1 then - 1 else r + 1))"

text \<open>\<^verbatim>\<open>xs.slice(a, b)\<close> and \<^verbatim>\<open>xs.slice(a)\<close>: a negative index counts from the end, both are
  clamped to the array.\<close>

definition relIndex :: "int \<Rightarrow> nat \<Rightarrow> nat" where
  "relIndex k n = (if k < 0 then nat (max (int n + k) 0) else min (nat k) n)"

definition slice :: "'a list \<Rightarrow> int \<Rightarrow> int \<Rightarrow> 'a list" where
  "slice xs a b = take (relIndex b (length xs) - relIndex a (length xs)) (drop (relIndex a (length xs)) xs)"

definition sliceFrom :: "'a list \<Rightarrow> int \<Rightarrow> 'a list" where
  "sliceFrom xs a = drop (relIndex a (length xs)) xs"

definition fence :: string where
  "fence = [CHR 0x60, CHR 0x60, CHR 0x60]"

definition hasFence :: "string \<Rightarrow> bool" where
  "hasFence line = includes_str line fence"


section \<open>extractBackticks\<close>

text \<open>The body of the \<^verbatim>\<open>try\<close>: each \<^verbatim>\<open>throw\<close> is an \<open>Inl\<close>.\<close>

definition extractBackticks_try :: "string \<Rightarrow> error + string" where
  "extractBackticks_try s =
     (let lines = split_str NL s;
          firstLineWithBackticksIndex = findIndex hasFence lines;
          lastBackticksIndex = int (length lines) - 1 - findIndex hasFence (rev lines)
      in if firstLineWithBackticksIndex = - 1 then Inl NoOpeningBackticks
         else if lastBackticksIndex = - 1 then Inl NoClosingBackticks
         else if lastBackticksIndex \<le> firstLineWithBackticksIndex then Inl MalformedBacktickStructure
         else (let extractedContent =
                     trim (join_str [NL] (slice lines (firstLineWithBackticksIndex + 1) lastBackticksIndex))
               in if extractedContent = [] then Inl EmptyContent else Inr extractedContent))"

text \<open>The result \<^verbatim>\<open>{ text }\<close> is \<open>Some\<close> of the text, \<^verbatim>\<open>null\<close> is \<open>None\<close>.\<close>

definition extractBackticks :: "jsval \<Rightarrow> string option" where
  "extractBackticks v =
     (if \<not> truthy v \<or> \<not> isString v then None
      else (case v of
              JStr s \<Rightarrow> (case extractBackticks_try s of Inl e \<Rightarrow> None | Inr t \<Rightarrow> Some t)
            | _ \<Rightarrow> None))"


section \<open>extractBackticksMultiple\<close>

text \<open>
  \<^verbatim>\<open>found\<close> is a plain object used as a dictionary: its own properties, in the order they
  were added (JavaScript lists keys that are array indices first; nothing here depends on the
  order). \<^verbatim>\<open>found[delim] = body\<close> adds or overwrites the own property \<open>delim\<close>, except for the
  key \<^verbatim>\<open>__proto__\<close>: that one is an accessor inherited from \<^verbatim>\<open>Object.prototype\<close>, whose setter
  ignores a value that is neither an object nor null, so the assignment of a string stores
  nothing. Every other name \<^verbatim>\<open>Object.prototype\<close> has is a writable data property, which an
  assignment shadows with an own property.
\<close>

definition setProp :: "(string \<times> string) list \<Rightarrow> string \<Rightarrow> string \<Rightarrow> (string \<times> string) list" where
  "setProp obj k v = (if k = ''__proto__'' then obj else AList.update k v obj)"

text \<open>The \<^verbatim>\<open>for\<close> loop over the delimiters, on the state \<open>(found, cursor)\<close>; \<^verbatim>\<open>break\<close> returns
  the state, \<^verbatim>\<open>continue\<close> goes on with the state unchanged.\<close>

fun scanDelims :: "string list \<Rightarrow> string list \<Rightarrow> (string \<times> string) list \<times> int
    \<Rightarrow> (string \<times> string) list \<times> int" where
  "scanDelims lines [] st = st"
| "scanDelims lines (delim # rest) (found, cursor) =
     (if cursor \<ge> int (length lines) then (found, cursor)
      else (let firstLine = findIndex (\<lambda>line. includes_str line (fence @ delim)) (sliceFrom lines cursor)
            in if firstLine = - 1 then scanDelims lines rest (found, cursor)
               else (let textFromFirstLine = sliceFrom (sliceFrom lines cursor) firstLine;
                         lastLine = findIndex hasFence (sliceFrom textFromFirstLine 1)
                     in if lastLine = - 1 then scanDelims lines rest (found, cursor)
                        else scanDelims lines rest
                               (setProp found delim (join_str [NL] (slice textFromFirstLine 1 (lastLine + 1))),
                                cursor + firstLine + lastLine + 2))))"

text \<open>The body of the \<^verbatim>\<open>try\<close>; \<^verbatim>\<open>text.split\<close> on a value that is not a string is a TypeError.\<close>

definition extractBackticksMultiple_try :: "jsval \<Rightarrow> string list \<Rightarrow> error + (string \<times> string) list option" where
  "extractBackticksMultiple_try v delimiters =
     (case v of
        JStr s \<Rightarrow>
          (let found = fst (scanDelims (split_str NL s) delimiters ([], 0))
           in Inr (if length (map fst found) > 0 then Some found else None))
      | _ \<Rightarrow> Inl TypeError)"

fun isArray :: "jsval \<Rightarrow> bool" where
  "isArray (JArr xs) = True"
| "isArray v = False"

fun arrayItems :: "jsval \<Rightarrow> string list" where
  "arrayItems (JArr xs) = xs"
| "arrayItems v = []"

definition extractBackticksMultiple :: "jsval \<Rightarrow> jsval \<Rightarrow> (string \<times> string) list option" where
  "extractBackticksMultiple v delimiters =
     (if \<not> truthy v \<or> \<not> isArray delimiters \<or> length (arrayItems delimiters) = 0 then None
      else (case extractBackticksMultiple_try v (arrayItems delimiters) of Inl e \<Rightarrow> None | Inr r \<Rightarrow> r))"


section \<open>parseYaml\<close>

text \<open>\<^verbatim>\<open>generated.text\<close> on a value that is neither null nor undefined: the property of an
  object, and undefined on a boolean, a number, a string or an array, which have no such
  property.\<close>

fun textOf :: "jsval \<Rightarrow> jsval" where
  "textOf (JObj ps) = (case map_of ps ''text'' of Some v \<Rightarrow> v | None \<Rightarrow> JUndefined)"
| "textOf v = JUndefined"

text \<open>The decoder \<^verbatim>\<open>yaml.parse\<close> is the \<^verbatim>\<open>yaml\<close> package, not code of this repository: it
  is the parameter \<open>decode\<close>, which returns a value or raises.\<close>

definition parseYaml_try :: "(jsval \<Rightarrow> 'e + jsval) \<Rightarrow> jsval \<Rightarrow> ('e + error) + jsval" where
  "parseYaml_try decode generated =
     (case decode (textOf generated) of
        Inl e \<Rightarrow> Inl (Inl e)
      | Inr parsed \<Rightarrow>
          if parsed = JNull \<or> parsed = JUndefined then Inl (Inr YamlNullOrUndefined) else Inr parsed)"

definition parseYaml :: "(jsval \<Rightarrow> 'e + jsval) \<Rightarrow> jsval \<Rightarrow> jsval" where
  "parseYaml decode generated =
     (if \<not> truthy generated \<or> \<not> truthy (textOf generated) then JNull
      else (case parseYaml_try decode generated of Inl e \<Rightarrow> JNull | Inr parsed \<Rightarrow> parsed))"


section \<open>editGenUi\<close>

definition sectionsPrefix :: string where
  "sectionsPrefix = ''@/components/sections/''"

definition viewsPrefix :: string where
  "viewsPrefix = ''@/components/views/''"

definition sectionImport :: string where
  "sectionImport = ''import GenUiSection from '' @ [CHR 0x27] @ ''@/p0/genui/GenUiSection'' @ [CHR 0x27] @ '';''"

definition viewImport :: string where
  "viewImport = ''import GenUiView from '' @ [CHR 0x27] @ ''@/p0/genui/GenUiView'' @ [CHR 0x27] @ '';''"

text \<open>\<^verbatim>\<open>genUi\<close>: each field is \<^verbatim>\<open>false\<close> (\<open>None\<close>) or an array of identifiers.\<close>

record genUi =
  sections :: "string list option"
  views :: "string list option"

record editResult =
  tsx :: jsval
  ids :: genUi

text \<open>\<^verbatim>\<open>line.split(" ")[1]\<close>: the second piece, or undefined (\<open>None\<close>).\<close>

definition secondPiece :: "string \<Rightarrow> string option" where
  "secondPiece line = (case split_str CHR '' '' line of a # b # rest \<Rightarrow> Some b | _ \<Rightarrow> None)"

text \<open>\<^verbatim>\<open>[...new Set(xs)]\<close>: the elements of \<open>xs\<close> in the order of their first occurrence.\<close>

definition newSet :: "string list \<Rightarrow> string list" where
  "newSet xs = fold (\<lambda>x acc. if x \<in> set acc then acc else acc @ [x]) xs []"

text \<open>One category branch of the filter callback: the field becomes an array if it was
  \<^verbatim>\<open>false\<close>, and the identifier is added when it is a non-empty string.\<close>

definition collect :: "string list option \<Rightarrow> string \<Rightarrow> string list option" where
  "collect field line =
     (let arr = (case field of None \<Rightarrow> [] | Some xs \<Rightarrow> xs)
      in (case secondPiece line of
            None \<Rightarrow> Some arr
          | Some ident \<Rightarrow> if ident \<noteq> [] then Some (newSet (arr @ [ident])) else Some arr))"

text \<open>The filter callback: the updated \<^verbatim>\<open>genUi\<close> and whether the line is kept.\<close>

definition filterLine :: "genUi \<Rightarrow> string \<Rightarrow> genUi \<times> bool" where
  "filterLine g line =
     (if line = [] then (g, True)
      else if includes_str line sectionsPrefix then (g\<lparr>sections := collect (sections g) line\<rparr>, False)
      else if includes_str line viewsPrefix then (g\<lparr>views := collect (views g) line\<rparr>, False)
      else (g, True))"

text \<open>\<^verbatim>\<open>.filter(...)\<close> over the lines, threading \<^verbatim>\<open>genUi\<close>: the final \<^verbatim>\<open>genUi\<close> and the kept
  lines.\<close>

fun filterLines :: "genUi \<Rightarrow> string list \<Rightarrow> genUi \<times> string list" where
  "filterLines g [] = (g, [])"
| "filterLines g (line # rest) =
     (let (g', keep) = filterLine g line;
          (g'', kept) = filterLines g' rest
      in (g'', if keep then line # kept else kept))"

text \<open>
  The replacement text of one match of \<^verbatim>\<open>s.replaceAll(search, template)\<close>: in a template
  given as a string, \<^verbatim>\<open>$$\<close> is a dollar sign, \<^verbatim>\<open>$&\<close> the matched text, \<^verbatim>\<open>$`\<close> the text before
  the match and \<^verbatim>\<open>$'\<close> the text after it; a search string has no groups, so any other
  dollar sign stands for itself.
\<close>

fun getSubstitution :: "string \<Rightarrow> string \<Rightarrow> string \<Rightarrow> string \<Rightarrow> string" where
  "getSubstitution matched pre post [] = []"
| "getSubstitution matched pre post [c] = [c]"
| "getSubstitution matched pre post (c # d # r) =
     (if c = CHR ''$'' \<and> d = CHR ''$'' then CHR ''$'' # getSubstitution matched pre post r
      else if c = CHR ''$'' \<and> d = CHR ''&'' then matched @ getSubstitution matched pre post r
      else if c = CHR ''$'' \<and> d = CHR 0x60 then pre @ getSubstitution matched pre post r
      else if c = CHR ''$'' \<and> d = CHR 0x27 then post @ getSubstitution matched pre post r
      else c # getSubstitution matched pre post (d # r))"

text \<open>\<^verbatim>\<open>s.replaceAll(search, template)\<close> for a non-empty search string: the matches are found
  left to right without overlap in the original string; \<open>passed\<close> is the part of the string
  already passed (in reverse), which \<^verbatim>\<open>$`\<close> needs.\<close>

fun replaceFrom :: "string \<Rightarrow> string \<Rightarrow> string \<Rightarrow> string \<Rightarrow> string" where
  "replaceFrom search template passed [] = []"
| "replaceFrom search template passed (c # cs) =
     (if search \<noteq> [] \<and> prefix search (c # cs)
      then getSubstitution search (rev passed) (drop (length search) (c # cs)) template
           @ replaceFrom search template (rev (take (length search) (c # cs)) @ passed) (drop (length search) (c # cs))
      else c # replaceFrom search template (c # passed) cs)"

definition replaceAll :: "string \<Rightarrow> string \<Rightarrow> string \<Rightarrow> string" where
  "replaceAll s search template = replaceFrom search template [] s"

text \<open>The \<^verbatim>\<open>for ... of\<close> loop of one category: one \<^verbatim>\<open>replaceAll\<close> for each identifier.\<close>

fun wrapTags :: "string \<Rightarrow> string list \<Rightarrow> string \<Rightarrow> string" where
  "wrapTags wrapper [] newTsx = newTsx"
| "wrapTags wrapper (ident # rest) newTsx =
     wrapTags wrapper rest
       (replaceAll newTsx (''<'' @ ident) (''<'' @ wrapper @ '' id='' @ [CHR 0x22] @ ident @ [CHR 0x22]))"

definition substitute :: "string list option \<Rightarrow> string \<Rightarrow> string \<Rightarrow> string \<Rightarrow> string" where
  "substitute field importLine wrapper newTsx =
     (case field of
        None \<Rightarrow> newTsx
      | Some idents \<Rightarrow> wrapTags wrapper idents (importLine @ [NL] @ newTsx))"

text \<open>The body of the \<^verbatim>\<open>try\<close>; \<^verbatim>\<open>tsx.split\<close> on a value that is not a string is a TypeError.\<close>

definition editGenUi_try :: "jsval \<Rightarrow> error + editResult" where
  "editGenUi_try v =
     (case v of
        JStr s \<Rightarrow>
          (let (g, kept) = filterLines \<lparr>sections = None, views = None\<rparr> (split_str NL s);
               newTsx = join_str [NL] kept;
               newTsx = substitute (sections g) sectionImport ''GenUiSection'' newTsx;
               newTsx = substitute (views g) viewImport ''GenUiView'' newTsx
           in Inr \<lparr>tsx = JStr newTsx, ids = g\<rparr>)
      | _ \<Rightarrow> Inl TypeError)"

definition editGenUi :: "jsval \<Rightarrow> editResult" where
  "editGenUi v =
     (if \<not> truthy v then \<lparr>tsx = JStr [], ids = \<lparr>sections = None, views = None\<rparr>\<rparr>
      else (case editGenUi_try v of
              Inl e \<Rightarrow> \<lparr>tsx = v, ids = \<lparr>sections = None, views = None\<rparr>\<rparr>
            | Inr r \<Rightarrow> r))"


section \<open>extractCodeDecorators\<close>

definition needMarker :: string where
  "needMarker = ''@need:''"

text \<open>The characters the dot of a regular expression does not match, below U+0100.\<close>

definition isLineTerminator :: "char \<Rightarrow> bool" where
  "isLineTerminator c = (c = CHR 0x0A \<or> c = CHR 0x0D)"

text \<open>
  \<^verbatim>\<open>/@need:([^:]+):(.+)/\<close> tried at the start of \<open>s\<close>: the marker, then the longest run of
  characters other than a colon (not empty), then a colon, then the longest run of
  characters other than a line terminator (not empty). A shorter first group is never
  followed by a colon, so there is nothing else to try at this position.
\<close>

definition matchHere :: "string \<Rightarrow> (string \<times> string) option" where
  "matchHere s =
     (if prefix needMarker s
      then (let r = drop (length needMarker) s;
                g1 = takeWhile (\<lambda>c. c \<noteq> CHR '':'') r
            in if g1 = [] then None
               else (case dropWhile (\<lambda>c. c \<noteq> CHR '':'') r of
                       [] \<Rightarrow> None
                     | colon # d \<Rightarrow>
                         (let g2 = takeWhile (\<lambda>c. \<not> isLineTerminator c) d
                          in if g2 = [] then None else Some (g1, g2))))
      else None)"

text \<open>\<^verbatim>\<open>line.match(...)\<close>: the match at the leftmost position that has one, as its two groups.\<close>

fun decoratorMatch :: "string \<Rightarrow> (string \<times> string) option" where
  "decoratorMatch [] = None"
| "decoratorMatch (c # cs) =
     (case matchHere (c # cs) of Some m \<Rightarrow> Some m | None \<Rightarrow> decoratorMatch cs)"

record decorator =
  type :: string
  description :: string
  snippet :: string
  lineNumber :: nat

definition elision :: string where
  "elision = ''{/*...*/}''"

text \<open>The \<^verbatim>\<open>forEach\<close> callback on the state \<open>(decorators, warnings)\<close>: the array being filled
  and the line numbers \<^verbatim>\<open>console.warn\<close> was called with.\<close>

definition visitLine :: "string list \<Rightarrow> string \<Rightarrow> nat \<Rightarrow> decorator list \<times> nat list
    \<Rightarrow> decorator list \<times> nat list" where
  "visitLine lines line index st =
     (case decoratorMatch line of
        None \<Rightarrow> st
      | Some (g1, g2) \<Rightarrow>
          if trim g1 = [] \<or> trim g2 = [] then (fst st, snd st @ [index + 1])
          else (let startLine = max 0 (int index - 5);
                    endLine = min (int (length lines)) (int index + 15 + 1);
                    snip = elision @ [NL] @ join_str [NL] (slice lines startLine endLine) @ [NL] @ elision
                in (fst st @ [\<lparr>type = trim g1, description = trim g2, snippet = snip,
                               lineNumber = index + 1\<rparr>],
                    snd st)))"

fun forEachLine :: "string list \<Rightarrow> nat \<Rightarrow> string list \<Rightarrow> decorator list \<times> nat list
    \<Rightarrow> decorator list \<times> nat list" where
  "forEachLine lines index [] st = st"
| "forEachLine lines index (line # rest) st =
     forEachLine lines (index + 1) rest (visitLine lines line index st)"

text \<open>The body of the \<^verbatim>\<open>try\<close>; \<^verbatim>\<open>code.split\<close> on a value that is not a string is a TypeError.\<close>

definition extractCodeDecorators_try :: "jsval \<Rightarrow> error + decorator list \<times> nat list" where
  "extractCodeDecorators_try v =
     (case v of
        JStr s \<Rightarrow> Inr (forEachLine (split_str NL s) 0 (split_str NL s) ([], []))
      | _ \<Rightarrow> Inl TypeError)"

text \<open>The returned array together with the warnings written on the way.\<close>

definition extractCodeDecorators_log :: "jsval \<Rightarrow> decorator list \<times> nat list" where
  "extractCodeDecorators_log v =
     (if \<not> truthy v then ([], [])
      else (case extractCodeDecorators_try v of Inl e \<Rightarrow> ([], []) | Inr r \<Rightarrow> r))"

definition extractCodeDecorators :: "jsval \<Rightarrow> decorator list" where
  "extractCodeDecorators v = fst (extractCodeDecorators_log v)"


section \<open>Notions the statements use\<close>

text \<open>The indices of the lines that contain the fence, in ascending order.\<close>

definition fenceLines :: "string list \<Rightarrow> nat list" where
  "fenceLines lines = filter (\<lambda>k. hasFence (lines ! k)) [0..<length lines]"

text \<open>The lines strictly between the lines \<open>i\<close> and \<open>j\<close>.\<close>

definition linesBetween :: "string list \<Rightarrow> nat \<Rightarrow> nat \<Rightarrow> string list" where
  "linesBetween lines i j = take (j - Suc i) (drop (Suc i) lines)"

text \<open>A line carries a marker when the pattern matches in it; the marker is well formed when
  both groups are non-empty after trimming, malformed otherwise.\<close>

definition validMarker :: "string \<Rightarrow> bool" where
  "validMarker line =
     (case decoratorMatch line of None \<Rightarrow> False | Some (g1, g2) \<Rightarrow> trim g1 \<noteq> [] \<and> trim g2 \<noteq> [])"



text \<open>The lines from index \<open>max 0 (i - 5)\<close> up to, but excluding, \<open>min (length lines) (i + 15 + 1)\<close>
  (the subtraction of natural numbers stops at zero).\<close>

definition contextWindow :: "string list \<Rightarrow> nat \<Rightarrow> string list" where
  "contextWindow lines i = map (\<lambda>k. lines ! k) [i - 5 ..< min (length lines) (i + 15 + 1)]"



text \<open>The opening fence of a label, searched from the cursor on, is on line \<open>i\<close>: the first
  line at or after the cursor that contains the fence followed by the label.\<close>

definition opensAt :: "string list \<Rightarrow> string \<Rightarrow> nat \<Rightarrow> nat \<Rightarrow> bool" where
  "opensAt lines delim cursor i \<longleftrightarrow>
     cursor \<le> i \<and> i < length lines \<and> includes_str (lines ! i) (fence @ delim) \<and>
     list_all (\<lambda>k. \<not> includes_str (lines ! k) (fence @ delim)) [cursor..<i]"

text \<open>The fence that closes a block opened on line \<open>i\<close> is on line \<open>j\<close>: the first line after
  \<open>i\<close> that contains a fence.\<close>

definition closesAt :: "string list \<Rightarrow> nat \<Rightarrow> nat \<Rightarrow> bool" where
  "closesAt lines i j \<longleftrightarrow>
     i < j \<and> j < length lines \<and> hasFence (lines ! j) \<and>
     list_all (\<lambda>k. \<not> hasFence (lines ! k)) [Suc i..<j]"













section \<open>Inputs used to exercise the theorems\<close>

text \<open>A stand-in decoder for running \<open>parseYaml\<close> on concrete inputs: it raises on a value that
  is not a string and on an unclosed bracket, decodes \<^verbatim>\<open>null\<close> to null and any other text to
  itself. No theorem about \<open>parseYaml\<close> depends on it.\<close>

definition exampleDecoder :: "jsval \<Rightarrow> error + jsval" where
  "exampleDecoder v =
     (case v of
        JStr s \<Rightarrow> if s = ''null'' then Inr JNull else if s = ''['' then Inl TypeError else Inr (JStr s)
      | _ \<Rightarrow> Inl TypeError)"

text \<open>Texts with fences: the two of the specification, one whose only content line is a
  space, one with a language tag and text around the block, and one with a single fence.\<close>

definition fencedHello :: string where
  "fencedHello = fence @ [NL] @ ''hello'' @ [NL] @ fence"

definition fencedNothing :: string where
  "fencedNothing = fence @ [NL] @ fence"

definition fencedBlank :: string where
  "fencedBlank = fence @ [NL] @ '' '' @ [NL] @ fence"

definition fencedCode :: string where
  "fencedCode = ''see:'' @ [NL] @ fence @ ''js'' @ [NL] @ '' a '' @ [NL] @ ''b'' @ [NL] @ fence"

definition singleFence :: string where
  "singleFence = ''a'' @ [NL] @ fence @ [NL] @ ''b''"

text \<open>Twelve lines of source: a well-formed marker on line 10, a marker with a blank
  description on line 12, and on line 3 a marker text the pattern does not match.\<close>

definition annotated :: string where
  "annotated = ''l1'' @ [NL] @ ''l2'' @ [NL] @ ''@need::'' @ [NL] @ ''l4'' @ [NL] @ ''l5'' @ [NL] @ ''l6'' @ [NL]
     @ ''l7'' @ [NL] @ ''l8'' @ [NL] @ ''l9'' @ [NL] @ ''// @need:api:fetch user data'' @ [NL] @ ''l11'' @ [NL] @ ''x @need:db: ''"


definition bareView :: string where
  "bareView = ''<p/>'' @ [NL] @ ''@/components/views/''"




text \<open>A fenced block whose label is \<^verbatim>\<open>__proto__\<close>, and a text whose identifier holds the
  replacement pattern \<^verbatim>\<open>$&\<close>.\<close>

definition protoBlock :: string where
  "protoBlock = fence @ ''__proto__'' @ [NL] @ ''body'' @ [NL] @ fence"

definition dollarView :: string where
  "dollarView = ''@/components/views/ $&s/@/components/view'' @ [NL] @ ''<$&s/@/components/view''"





section \<open>Properties of the primitives\<close>

lemma findIndex_bounds: "- 1 \<le> findIndex p xs \<and> findIndex p xs < int (length xs)"
  by (induction xs) (auto simp: Let_def)

lemma findIndex_none: "findIndex p xs = - 1 \<longleftrightarrow> (\<forall>x\<in>set xs. \<not> p x)"
proof (induction xs)
  case Nil
  show ?case by simp
next
  case (Cons x xs)
  have "- 1 \<le> findIndex p xs" using findIndex_bounds by blast
  with Cons show ?case by (auto simp: Let_def)
qed

lemma findIndex_eqI:
  "i < length xs \<Longrightarrow> p (xs ! i) \<Longrightarrow> (\<forall>j<i. \<not> p (xs ! j)) \<Longrightarrow> findIndex p xs = int i"
proof (induction xs arbitrary: i)
  case Nil
  then show ?case by simp
next
  case (Cons x xs)
  show ?case
  proof (cases i)
    case 0
    with Cons.prems show ?thesis by simp
  next
    case (Suc k)
    from Cons.prems Suc have nx: "\<not> p x" by auto
    from Cons.prems Suc have "k < length xs" "p (xs ! k)" by auto
    moreover from Cons.prems Suc have "\<forall>j<k. \<not> p (xs ! j)" by auto
    ultimately have "findIndex p xs = int k" by (rule Cons.IH)
    with nx Suc show ?thesis by (simp add: Let_def)
  qed
qed

lemma findIndex_found:
  "findIndex p xs \<noteq> - 1 \<Longrightarrow>
     nat (findIndex p xs) < length xs \<and> p (xs ! nat (findIndex p xs)) \<and>
     (\<forall>j < nat (findIndex p xs). \<not> p (xs ! j))"
proof (induction xs)
  case Nil
  then show ?case by simp
next
  case (Cons x xs)
  show ?case
  proof (cases "p x")
    case True
    then show ?thesis by simp
  next
    case False
    with Cons.prems have ne: "findIndex p xs \<noteq> - 1" by (auto simp: Let_def)
    have ge: "0 \<le> findIndex p xs" using findIndex_bounds [of p xs] ne by linarith
    from False ne have eq: "findIndex p (x # xs) = findIndex p xs + 1" by (simp add: Let_def)
    have n: "nat (findIndex p xs + 1) = Suc (nat (findIndex p xs))" using ge by simp
    from Cons.IH [OF ne] False show ?thesis
      unfolding eq n by (auto simp: less_Suc_eq_0_disj)
  qed
qed

lemma split_str_nonempty: "split_str sep s \<noteq> []"
  by (induction s) (auto simp: Let_def)

lemma join_split: "join_str [sep] (split_str sep s) = s"
proof (induction s)
  case Nil
  show ?case by simp
next
  case (Cons c cs)
  obtain l ls where sp: "split_str sep cs = l # ls"
    using split_str_nonempty [of sep cs] by (cases "split_str sep cs") auto
  with Cons show ?case
    by (cases ls) (auto simp: Let_def)
qed

lemma split_str_no_sep: "l \<in> set (split_str sep s) \<Longrightarrow> sep \<notin> set l"
proof (induction s arbitrary: l)
  case Nil
  then show ?case by simp
next
  case (Cons c cs)
  obtain x xs where sp: "split_str sep cs = x # xs"
    using split_str_nonempty [of sep cs] by (cases "split_str sep cs") auto
  with Cons show ?case
    by (auto simp: Let_def split: if_splits)
qed

lemma trim_empty_iff: "trim s = [] \<longleftrightarrow> (\<forall>c\<in>set s. isWhite c)"
proof -
  have "(\<forall>c\<in>set (dropWhile isWhite s). isWhite c) \<longleftrightarrow> dropWhile isWhite s = []"
  proof (cases "dropWhile isWhite s")
    case Nil
    show ?thesis unfolding Nil by simp
  next
    case (Cons c cs)
    then have "\<not> isWhite (hd (dropWhile isWhite s))"
      using hd_dropWhile [of isWhite s] by simp
    with Cons show ?thesis by auto
  qed
  then show ?thesis
    unfolding trim_def by (simp add: dropWhile_eq_Nil_conv)
qed

lemma set_join_str: "l \<in> set ls \<Longrightarrow> set l \<subseteq> set (join_str sep ls)"
  by (induction sep ls rule: join_str.induct) auto

lemma relIndex_nat [simp]: "relIndex (int k) n = min k n"
  by (simp add: relIndex_def)

lemma slice_nat: "slice xs (int a) (int b) = take (min b (length xs) - min a (length xs)) (drop (min a (length xs)) xs)"
  by (simp add: slice_def)


section \<open>extractBackticks: one fenced region\<close>

lemma filter_upt_two:
  assumes "filter P [0..<n] = [i, j]"
  shows "i < j \<and> j < n \<and> P i \<and> P j \<and> (\<forall>k<n. P k \<longrightarrow> k = i \<or> k = j)"
proof -
  have s: "set (filter P [0..<n]) = {i, j}" using assms by simp
  have "sorted (filter P [0..<n])" by (rule sorted_wrt_filter) simp
  then have le: "i \<le> j" using assms by simp
  have "distinct (filter P [0..<n])" by simp
  then have ne: "i \<noteq> j" using assms by simp
  have mem: "\<And>k. k \<in> {i, j} \<longleftrightarrow> k < n \<and> P k" using s by auto
  from mem [of i] mem [of j] mem le ne show ?thesis by auto
qed

lemma filter_upt_one:
  assumes "filter P [0..<n] = [i]"
  shows "i < n \<and> P i \<and> (\<forall>k<n. P k \<longrightarrow> k = i)"
proof -
  have s: "set (filter P [0..<n]) = {i}" using assms by simp
  have mem: "\<And>k. k \<in> {i} \<longleftrightarrow> k < n \<and> P k" using s by auto
  from mem [of i] mem show ?thesis by auto
qed

lemma findIndex_rev:
  assumes "j < length xs" "p (xs ! j)" "\<forall>k<length xs. j < k \<longrightarrow> \<not> p (xs ! k)"
  shows "findIndex p (rev xs) = int (length xs) - 1 - int j"
proof -
  let ?m = "length xs - Suc j"
  have a: "?m < length (rev xs)" using assms(1) by simp
  have b: "p (rev xs ! ?m)" using assms(1,2) by (simp add: rev_nth)
  have c: "\<forall>k<?m. \<not> p (rev xs ! k)"
  proof (intro allI impI)
    fix k assume k: "k < ?m"
    then have "rev xs ! k = xs ! (length xs - Suc k)" by (simp add: rev_nth)
    moreover have "j < length xs - Suc k" "length xs - Suc k < length xs" using k assms(1) by auto
    ultimately show "\<not> p (rev xs ! k)" using assms(3) by simp
  qed
  have "findIndex p (rev xs) = int ?m" by (rule findIndex_eqI [OF a b c])
  then show ?thesis using assms(1) by (simp add: of_nat_diff)
qed

lemma slice_between:
  assumes "i < j" "j < length lines"
  shows "slice lines (int i + 1) (int j) = linesBetween lines i j"
proof -
  have e: "int i + 1 = int (Suc i)" by simp
  show ?thesis
    unfolding e slice_nat using assms by (simp add: linesBetween_def min_def)
qed

lemma hasFence_Nil [simp]: "\<not> hasFence []"
  by (simp add: hasFence_def fence_def)

lemma fenceLines_empty_text [simp]: "fenceLines [[]] = []"
  by (simp add: fenceLines_def)

lemma trim_join_nonempty:
  assumes "list_ex (\<lambda>l. trim l \<noteq> []) ls"
  shows "trim (join_str sep ls) \<noteq> []"
proof -
  from assms obtain l where l: "l \<in> set ls" "trim l \<noteq> []" by (auto simp: list_ex_iff)
  then obtain c where c: "c \<in> set l" "\<not> isWhite c" by (auto simp: trim_empty_iff)
  with l(1) have "c \<in> set (join_str sep ls)" using set_join_str by blast
  with c(2) show ?thesis by (auto simp: trim_empty_iff)
qed

lemma extractBackticks_try_two:
  assumes fl: "fenceLines (split_str NL s) = [i, j]"
  shows "extractBackticks_try s =
     (if trim (join_str [NL] (linesBetween (split_str NL s) i j)) = [] then Inl EmptyContent
      else Inr (trim (join_str [NL] (linesBetween (split_str NL s) i j))))"
proof -
  let ?ls = "split_str NL s"
  from filter_upt_two [OF fl [unfolded fenceLines_def]]
  have ij: "i < j" "j < length ?ls" and pi: "hasFence (?ls ! i)" and pj: "hasFence (?ls ! j)"
    and only: "\<forall>k<length ?ls. hasFence (?ls ! k) \<longrightarrow> k = i \<or> k = j" by auto
  have before: "\<forall>k<i. \<not> hasFence (?ls ! k)"
  proof (intro allI impI)
    fix k assume k: "k < i"
    then have "k < length ?ls" "k \<noteq> i" "k \<noteq> j" using ij by auto
    with only show "\<not> hasFence (?ls ! k)" by blast
  qed
  have after: "\<forall>k<length ?ls. j < k \<longrightarrow> \<not> hasFence (?ls ! k)"
  proof (intro allI impI)
    fix k assume k: "k < length ?ls" "j < k"
    then have "k \<noteq> i" "k \<noteq> j" using ij by auto
    with only k(1) show "\<not> hasFence (?ls ! k)" by blast
  qed
  have i_len: "i < length ?ls" using ij by simp
  have first: "findIndex hasFence ?ls = int i"
    by (rule findIndex_eqI [OF i_len pi before])
  have "findIndex hasFence (rev ?ls) = int (length ?ls) - 1 - int j"
    by (rule findIndex_rev [OF ij(2) pj after])
  then have last: "int (length ?ls) - 1 - findIndex hasFence (rev ?ls) = int j" by simp
  show ?thesis
    unfolding extractBackticks_try_def Let_def first last
    using ij by (simp add: slice_between)
qed

lemma extractBackticks_try_le_one:
  assumes "length (fenceLines (split_str NL s)) \<le> 1"
  shows "\<exists>e. extractBackticks_try s = Inl e"
proof (cases "fenceLines (split_str NL s)")
  case Nil
  let ?ls = "split_str NL s"
  have "\<forall>x\<in>set ?ls. \<not> hasFence x"
  proof
    fix x assume "x \<in> set ?ls"
    then obtain k where k: "k < length ?ls" "?ls ! k = x" by (auto simp: in_set_conv_nth)
    have "k \<notin> set (fenceLines ?ls)" using Nil by simp
    with k show "\<not> hasFence x" by (auto simp: fenceLines_def)
  qed
  then have "findIndex hasFence ?ls = - 1" by (simp add: findIndex_none)
  then show ?thesis by (simp add: extractBackticks_try_def Let_def)
next
  case (Cons i rest)
  with assms have fl: "fenceLines (split_str NL s) = [i]" by simp
  let ?ls = "split_str NL s"
  from filter_upt_one [OF fl [unfolded fenceLines_def]]
  have i: "i < length ?ls" and pi: "hasFence (?ls ! i)"
    and only: "\<forall>k<length ?ls. hasFence (?ls ! k) \<longrightarrow> k = i" by auto
  have before: "\<forall>k<i. \<not> hasFence (?ls ! k)"
  proof (intro allI impI)
    fix k assume k: "k < i"
    then have "k < length ?ls" "k \<noteq> i" using i by auto
    with only show "\<not> hasFence (?ls ! k)" by blast
  qed
  have after: "\<forall>k<length ?ls. i < k \<longrightarrow> \<not> hasFence (?ls ! k)"
    using only by auto
  have first: "findIndex hasFence ?ls = int i"
    by (rule findIndex_eqI [OF i pi before])
  have "findIndex hasFence (rev ?ls) = int (length ?ls) - 1 - int i"
    by (rule findIndex_rev [OF i pi after])
  then have last: "int (length ?ls) - 1 - findIndex hasFence (rev ?ls) = int i" by simp
  show ?thesis
    unfolding extractBackticks_try_def Let_def first last by simp
qed

text \<open>
  Claim C1, as amended. When exactly two lines of the text contain the fence and some line
  strictly between them is not empty after trimming, \<open>extractBackticks\<close> returns the lines
  strictly between the two, joined with newline and trimmed. When no line or exactly one line
  contains the fence it returns null. On a fence, the line \<^verbatim>\<open>hello\<close> and a fence it returns
  \<^verbatim>\<open>hello\<close>; on two fence lines with nothing between them it returns null.
\<close>

theorem extractBackticks_one_region:
  "(fenceLines (split_str NL s) = [i, j] \<and>
      list_ex (\<lambda>l. trim l \<noteq> []) (linesBetween (split_str NL s) i j) \<longrightarrow>
      extractBackticks (JStr s) = Some (trim (join_str [NL] (linesBetween (split_str NL s) i j)))) \<and>
   (length (fenceLines (split_str NL s')) \<le> 1 \<longrightarrow> extractBackticks (JStr s') = None) \<and>
   extractBackticks (JStr fencedHello) = Some ''hello'' \<and>
   extractBackticks (JStr fencedNothing) = None"
proof (intro conjI impI)
  assume a: "fenceLines (split_str NL s) = [i, j] \<and>
      list_ex (\<lambda>l. trim l \<noteq> []) (linesBetween (split_str NL s) i j)"
  then have ne: "s \<noteq> []" by auto
  from a have "trim (join_str [NL] (linesBetween (split_str NL s) i j)) \<noteq> []"
    by (intro trim_join_nonempty) simp
  with a ne show "extractBackticks (JStr s) = Some (trim (join_str [NL] (linesBetween (split_str NL s) i j)))"
    by (simp add: extractBackticks_def extractBackticks_try_two)
next
  assume "length (fenceLines (split_str NL s')) \<le> 1"
  from extractBackticks_try_le_one [OF this] show "extractBackticks (JStr s') = None"
    by (auto simp: extractBackticks_def)
next
  show "extractBackticks (JStr fencedHello) = Some ''hello''"
    by code_simp
next
  show "extractBackticks (JStr fencedNothing) = None"
    by code_simp
qed

theorem extractBackticks_one_region_witness:
  "fenceLines (split_str NL fencedCode) = [1, 4] \<and>
   list_ex (\<lambda>l. trim l \<noteq> []) (linesBetween (split_str NL fencedCode) 1 4) \<and>
   extractBackticks (JStr fencedCode) = Some (''a '' @ [NL] @ ''b'') \<and>
   length (fenceLines (split_str NL singleFence)) \<le> 1 \<and>
   extractBackticks (JStr singleFence) = None"
proof -
  have h1: "fenceLines (split_str NL fencedCode) = [1, 4]" by code_simp
  have h2: "list_ex (\<lambda>l. trim l \<noteq> []) (linesBetween (split_str NL fencedCode) 1 4)" by code_simp
  have h3: "length (fenceLines (split_str NL singleFence)) \<le> 1" by code_simp
  have v: "trim (join_str [NL] (linesBetween (split_str NL fencedCode) 1 4)) = ''a '' @ [NL] @ ''b''"
    by code_simp
  from extractBackticks_one_region [of fencedCode 1 4 singleFence] h1 h2 h3 v
  show ?thesis by simp
qed

text \<open>Claim C1 as it is written fails when the content lines are not empty but blank: here
  two fence lines enclose one line holding a space, and the result is null, because the
  content is checked for emptiness after it has been trimmed.\<close>

theorem extractBackticks_blank_content:
  "fenceLines (split_str NL fencedBlank) = [0, 2] \<and>
   list_ex (\<lambda>l. l \<noteq> []) (linesBetween (split_str NL fencedBlank) 0 2) \<and>
   extractBackticks (JStr fencedBlank) = None"
  by code_simp


section \<open>extractBackticksMultiple: the scan\<close>

lemma sliceFrom_nat: "sliceFrom xs (int k) = drop k xs"
  by (cases "k \<le> length xs") (simp_all add: sliceFrom_def min_def)

lemma sliceFrom_one: "sliceFrom xs 1 = drop 1 xs"
  using sliceFrom_nat [of xs 1] by simp

lemma findIndex_drop:
  assumes "c \<le> i" "i < length xs" "p (xs ! i)" "\<forall>k. c \<le> k \<and> k < i \<longrightarrow> \<not> p (xs ! k)"
  shows "findIndex p (drop c xs) = int (i - c)"
proof (rule findIndex_eqI)
  show "i - c < length (drop c xs)" using assms(1,2) by simp
  show "p (drop c xs ! (i - c))" using assms(1,2,3) by simp
  show "\<forall>j<i - c. \<not> p (drop c xs ! j)"
  proof (intro allI impI)
    fix j assume "j < i - c"
    then have "c \<le> c + j \<and> c + j < i" "c + j \<le> length xs" using assms(1,2) by auto
    then show "\<not> p (drop c xs ! j)" using assms(4) by simp
  qed
qed

lemma findIndex_drop_none:
  assumes "\<forall>k. c \<le> k \<and> k < length xs \<longrightarrow> \<not> p (xs ! k)"
  shows "findIndex p (drop c xs) = - 1"
  unfolding findIndex_none
proof
  fix x assume "x \<in> set (drop c xs)"
  then obtain j where j: "j < length (drop c xs)" "drop c xs ! j = x" by (auto simp: in_set_conv_nth)
  then have "c \<le> c + j \<and> c + j < length xs" by auto
  with assms have "\<not> p (xs ! (c + j))" by blast
  with j show "\<not> p x" by simp
qed

text \<open>One pass of the loop body when the label's opening fence is not found from the cursor on.\<close>

lemma scanDelims_miss:
  assumes "cursor < length lines"
    and "\<forall>k. cursor \<le> k \<and> k < length lines \<longrightarrow> \<not> includes_str (lines ! k) (fence @ delim)"
  shows "scanDelims lines (delim # rest) (found, int cursor) = scanDelims lines rest (found, int cursor)"
proof -
  have f: "findIndex (\<lambda>line. includes_str line (fence @ delim)) (drop cursor lines) = - 1"
    by (rule findIndex_drop_none) (use assms(2) in blast)
  have lt: "\<not> int (length lines) \<le> int cursor" using assms(1) by simp
  show ?thesis
    unfolding scanDelims.simps Let_def sliceFrom_nat f using lt by simp
qed

text \<open>One pass when the opening fence is found on line \<open>i\<close> and no later line closes it.\<close>

lemma scanDelims_unclosed:
  assumes "opensAt lines delim cursor i"
    and "\<forall>k. i < k \<and> k < length lines \<longrightarrow> \<not> hasFence (lines ! k)"
  shows "scanDelims lines (delim # rest) (found, int cursor) = scanDelims lines rest (found, int cursor)"
proof -
  from assms(1) have c: "cursor \<le> i" "i < length lines" "includes_str (lines ! i) (fence @ delim)"
    and b: "\<forall>k. cursor \<le> k \<and> k < i \<longrightarrow> \<not> includes_str (lines ! k) (fence @ delim)"
    by (auto simp: opensAt_def list_all_iff)
  have f: "findIndex (\<lambda>line. includes_str line (fence @ delim)) (drop cursor lines) = int (i - cursor)"
    by (rule findIndex_drop [OF c b])
  have d: "drop (i - cursor) (drop cursor lines) = drop i lines" using c(1) by simp
  have "findIndex hasFence (drop (Suc i) lines) = - 1"
    by (rule findIndex_drop_none) (use assms(2) in auto)
  then have l: "findIndex hasFence (drop 1 (drop i lines)) = - 1" by simp
  have lt: "\<not> int (length lines) \<le> int cursor" using c by simp
  have nf: "int (i - cursor) \<noteq> - 1" by simp
  show ?thesis
    unfolding scanDelims.simps Let_def sliceFrom_nat f d sliceFrom_one l
    using lt nf by simp
qed

text \<open>One pass when the opening fence is found on line \<open>i\<close> and the next fence after it is on
  line \<open>j\<close>: the body is assigned to the label and the cursor moves to the line after \<open>j\<close>.\<close>

lemma scanDelims_hit:
  assumes "opensAt lines delim cursor i" and "closesAt lines i j"
  shows "scanDelims lines (delim # rest) (found, int cursor) =
           scanDelims lines rest (setProp found delim (join_str [NL] (linesBetween lines i j)), int (Suc j))"
proof -
  from assms(1) have c: "cursor \<le> i" "i < length lines" "includes_str (lines ! i) (fence @ delim)"
    and b: "\<forall>k. cursor \<le> k \<and> k < i \<longrightarrow> \<not> includes_str (lines ! k) (fence @ delim)"
    by (auto simp: opensAt_def list_all_iff)
  from assms(2) have e: "Suc i \<le> j" "j < length lines" "hasFence (lines ! j)"
    and g: "\<forall>k. Suc i \<le> k \<and> k < j \<longrightarrow> \<not> hasFence (lines ! k)"
    by (auto simp: closesAt_def list_all_iff)
  have f: "findIndex (\<lambda>line. includes_str line (fence @ delim)) (drop cursor lines) = int (i - cursor)"
    by (rule findIndex_drop [OF c b])
  have d: "drop (i - cursor) (drop cursor lines) = drop i lines" using c(1) by simp
  have "findIndex hasFence (drop (Suc i) lines) = int (j - Suc i)"
    by (rule findIndex_drop [OF e g])
  then have l: "findIndex hasFence (drop 1 (drop i lines)) = int (j - Suc i)" by simp
  have s: "slice (drop i lines) 1 (int (j - Suc i) + 1) = linesBetween lines i j"
  proof -
    have "int (j - Suc i) + 1 = int (j - i)" using e(1) by simp
    moreover have "slice (drop i lines) (int 1) (int (j - i)) = linesBetween lines i j"
      unfolding slice_nat using e c by (simp add: linesBetween_def min_def)
    ultimately show ?thesis by simp
  qed
  have n: "int cursor + int (i - cursor) + int (j - Suc i) + 2 = int (Suc j)"
    using c(1) e(1) by simp
  have lt: "\<not> int (length lines) \<le> int cursor" using c by simp
  have nf: "int (i - cursor) \<noteq> - 1" "int (j - Suc i) \<noteq> - 1" by simp_all
  show ?thesis
    unfolding scanDelims.simps Let_def sliceFrom_nat f d sliceFrom_one l s n
    using lt nf by (simp del: of_nat_Suc)
qed


text \<open>Storing under a label other than \<^verbatim>\<open>__proto__\<close>, and what the result is then.\<close>

lemma setProp_stores:
  "delim \<noteq> ''__proto__'' \<Longrightarrow> map_of (setProp found delim body) delim = Some body"
  by (simp add: setProp_def update_Some_unfold)

lemma setProp_nonempty:
  "delim \<noteq> ''__proto__'' \<Longrightarrow> setProp found delim body \<noteq> []"
  by (simp add: setProp_def)

lemma setProp_keeps: "found \<noteq> [] \<Longrightarrow> setProp found delim body \<noteq> []"
  by (simp add: setProp_def)

lemma scanDelims_keeps: "found \<noteq> [] \<Longrightarrow> fst (scanDelims lines ds (found, cursor)) \<noteq> []"
proof (induction ds arbitrary: found cursor)
  case Nil
  then show ?case by simp
next
  case (Cons d ds)
  then show ?case by (simp add: Let_def setProp_keeps)
qed

text \<open>On a text and an array of labels the result is null exactly when the text is empty,
  the array is empty or nothing was stored; an empty object is never returned; and a first
  label other than \<^verbatim>\<open>__proto__\<close> whose block is found gives a non-empty object.\<close>

lemma extractBackticksMultiple_null_iff:
  "extractBackticksMultiple (JStr s) (JArr ds) = None \<longleftrightarrow>
     s = [] \<or> ds = [] \<or> fst (scanDelims (split_str NL s) ds ([], 0)) = []"
  by (simp add: extractBackticksMultiple_def extractBackticksMultiple_try_def Let_def)

lemma extractBackticksMultiple_never_empty: "extractBackticksMultiple v delimiters \<noteq> Some []"
  by (cases v) (simp_all add: extractBackticksMultiple_def extractBackticksMultiple_try_def Let_def)

lemma extractBackticksMultiple_first_label:
  assumes "opensAt (split_str NL s) delim 0 i" and "closesAt (split_str NL s) i j"
    and "delim \<noteq> ''__proto__''"
  shows "\<exists>found. extractBackticksMultiple (JStr s) (JArr (delim # rest)) = Some found \<and> found \<noteq> []"
proof -
  have ne: "s \<noteq> []"
  proof
    assume "s = []"
    with assms(1) show False by (auto simp: opensAt_def fence_def)
  qed
  have "scanDelims (split_str NL s) (delim # rest) ([], int 0) =
          scanDelims (split_str NL s) rest
            (setProp [] delim (join_str [NL] (linesBetween (split_str NL s) i j)), int (Suc j))"
    by (rule scanDelims_hit [OF assms(1,2)])
  moreover have "fst (scanDelims (split_str NL s) rest
            (setProp [] delim (join_str [NL] (linesBetween (split_str NL s) i j)), int (Suc j))) \<noteq> []"
    by (rule scanDelims_keeps) (rule setProp_nonempty [OF assms(3)])
  ultimately have "fst (scanDelims (split_str NL s) (delim # rest) ([], 0)) \<noteq> []" by simp
  with ne show ?thesis
    by (simp add: extractBackticksMultiple_def extractBackticksMultiple_try_def Let_def)
qed

text \<open>
  Claim C3, where the code departs from it. The claim has the body of a found block stored
  under its label. For the label \<^verbatim>\<open>__proto__\<close> the block is found and the cursor moves past
  the closing line, but the assignment stores nothing: \<open>found\<close> is what it was. For every
  other label the three lemmas above (\<open>scanDelims_miss\<close>, \<open>scanDelims_unclosed\<close>,
  \<open>scanDelims_hit\<close>) and \<open>setProp_stores\<close> give what the claim says.
\<close>

theorem scanDelims_proto_hit:
  assumes "opensAt lines ''__proto__'' cursor i" and "closesAt lines i j"
  shows "scanDelims lines (''__proto__'' # rest) (found, int cursor) =
           scanDelims lines rest (found, int (Suc j))"
  unfolding scanDelims_hit [OF assms] by (simp add: setProp_def)

theorem scanDelims_proto_hit_witness:
  "opensAt (split_str NL protoBlock) ''__proto__'' 0 0 \<and>
   closesAt (split_str NL protoBlock) 0 2 \<and>
   join_str [NL] (linesBetween (split_str NL protoBlock) 0 2) = ''body'' \<and>
   scanDelims (split_str NL protoBlock) [''__proto__''] ([], 0) = ([], 3)"
proof -
  have h1: "opensAt (split_str NL protoBlock) ''__proto__'' 0 0" by code_simp
  have h2: "closesAt (split_str NL protoBlock) 0 2" by code_simp
  have h3: "join_str [NL] (linesBetween (split_str NL protoBlock) 0 2) = ''body''" by code_simp
  from scanDelims_proto_hit [OF h1 h2, of "[]" "[]"] h1 h2 h3 show ?thesis by simp
qed

text \<open>
  Claim C6, where the code departs from it. The claim has a non-empty mapping returned
  whenever a label matched. With \<^verbatim>\<open>__proto__\<close> as the only label the result is null on every
  text, also when the block of that label is found, since nothing is stored for it.
\<close>

theorem extractBackticksMultiple_proto_only:
  "extractBackticksMultiple (JStr s) (JArr [''__proto__'']) = None"
  by (simp add: extractBackticksMultiple_def extractBackticksMultiple_try_def Let_def setProp_def)

theorem extractBackticksMultiple_proto_only_witness:
  "opensAt (split_str NL protoBlock) ''__proto__'' 0 0 \<and>
   closesAt (split_str NL protoBlock) 0 2 \<and>
   extractBackticksMultiple (JStr protoBlock) (JArr [''__proto__'']) = None"
proof -
  have h1: "opensAt (split_str NL protoBlock) ''__proto__'' 0 0" by code_simp
  have h2: "closesAt (split_str NL protoBlock) 0 2" by code_simp
  from extractBackticksMultiple_proto_only [of protoBlock] h1 h2 show ?thesis by simp
qed


section \<open>extractCodeDecorators: records and skipped markers\<close>

lemma visitLine_appends:
  "visitLine lines line k st =
     (fst st @ fst (visitLine lines line k ([], [])), snd st @ snd (visitLine lines line k ([], [])))"
  by (simp add: visitLine_def Let_def split: option.splits prod.splits)

lemma forEachLine_concat:
  "forEachLine lines idx rest st =
     (fst st @ concat (map (\<lambda>(k, l). fst (visitLine lines l k ([], []))) (enumerate idx rest)),
      snd st @ concat (map (\<lambda>(k, l). snd (visitLine lines l k ([], []))) (enumerate idx rest)))"
proof (induction rest arbitrary: idx st)
  case Nil
  show ?case by simp
next
  case (Cons line rest)
  have v: "visitLine lines line idx st =
     (fst st @ fst (visitLine lines line idx ([], [])), snd st @ snd (visitLine lines line idx ([], [])))"
    by (rule visitLine_appends)
  show ?case
    by (simp add: Cons.IH [of "Suc idx"] v)
qed

lemma map_enumerate_nth:
  "map (\<lambda>(k, l). f k l) (enumerate 0 xs) = map (\<lambda>k. f k (xs ! k)) [0..<length xs]"
  by (rule nth_equalityI) (simp_all add: nth_enumerate_eq)

lemma forEachLine_all:
  "forEachLine lines 0 lines ([], []) =
     (concat (map (\<lambda>k. fst (visitLine lines (lines ! k) k ([], []))) [0..<length lines]),
      concat (map (\<lambda>k. snd (visitLine lines (lines ! k) k ([], []))) [0..<length lines]))"
  unfolding forEachLine_concat [of lines 0 lines "([], [])"]
  by (simp add: map_enumerate_nth [of "\<lambda>k l. fst (visitLine lines l k ([], []))"]
        map_enumerate_nth [of "\<lambda>k l. snd (visitLine lines l k ([], []))"])

lemma decoratorMatch_Nil_text: "forEachLine [[]] 0 [[]] ([], []) = ([], [])"
  by (simp add: visitLine_def)

lemma extractCodeDecorators_log_string:
  "extractCodeDecorators_log (JStr s) =
     (concat (map (\<lambda>k. fst (visitLine (split_str NL s) (split_str NL s ! k) k ([], []))) [0..<length (split_str NL s)]),
      concat (map (\<lambda>k. snd (visitLine (split_str NL s) (split_str NL s ! k) k ([], []))) [0..<length (split_str NL s)]))"
proof (cases "s = []")
  case True
  then show ?thesis by (simp add: extractCodeDecorators_log_def visitLine_def)
next
  case False
  then show ?thesis
    by (simp add: extractCodeDecorators_log_def extractCodeDecorators_try_def forEachLine_all)
qed

lemma visit_lineNumbers:
  "map lineNumber (fst (visitLine lines line k ([], []))) = (if validMarker line then [Suc k] else [])"
  by (simp add: visitLine_def validMarker_def Let_def split: option.splits prod.splits)


lemma concat_map_if: "concat (map (\<lambda>k. if P k then [f k] else []) ks) = map f (filter P ks)"
  by (induction ks) simp_all

lemma lineNumbers_string:
  "map lineNumber (extractCodeDecorators (JStr s)) =
     map Suc (filter (\<lambda>k. validMarker (split_str NL s ! k)) [0..<length (split_str NL s)])"
  by (simp add: extractCodeDecorators_def extractCodeDecorators_log_string map_concat comp_def
        visit_lineNumbers concat_map_if)


lemma take_drop_nth: "b \<le> length xs \<Longrightarrow> take (b - a) (drop a xs) = map (\<lambda>j. xs ! j) [a..<b]"
  by (rule nth_equalityI) auto

lemma slice_window:
  "slice lines (max 0 (int k - 5)) (min (int (length lines)) (int k + 15 + 1)) = contextWindow lines k"
proof -
  let ?b = "min (length lines) (k + 15 + 1)"
  have a: "max 0 (int k - 5) = int (k - 5)" by auto
  have b: "min (int (length lines)) (int k + 15 + 1) = int ?b" by auto
  have mb: "min ?b (length lines) = ?b" by simp
  have "take (?b - min (k - 5) (length lines)) (drop (min (k - 5) (length lines)) lines)
        = map (\<lambda>j. lines ! j) [k - 5 ..< ?b]"
  proof (cases "k - 5 \<le> length lines")
    case True
    then have "min (k - 5) (length lines) = k - 5" by simp
    then show ?thesis using take_drop_nth [of ?b lines "k - 5"] by simp
  next
    case False
    then show ?thesis by simp
  qed
  then show ?thesis
    unfolding a b slice_nat mb contextWindow_def .
qed

lemma visit_valid:
  assumes "decoratorMatch line = Some (t, d)" "trim t \<noteq> []" "trim d \<noteq> []"
  shows "visitLine lines line k ([], []) =
       ([\<lparr>type = trim t, description = trim d,
          snippet = elision @ [NL] @ join_str [NL] (contextWindow lines k) @ [NL] @ elision,
          lineNumber = k + 1\<rparr>], [])"
  unfolding visitLine_def Let_def slice_window using assms by simp


text \<open>
  Claim C4. For every source text and every line at 0-based index \<open>i\<close> in which the pattern
  matches with a type and a description that are non-empty after trimming,
  \<open>extractCodeDecorators\<close> returns a record with that trimmed type and description, line
  number \<open>i + 1\<close>, and as snippet the elision marker, a newline, the lines from index
  \<open>max 0 (i - 5)\<close> up to but excluding \<open>min (length lines) (i + 15 + 1)\<close> joined with newline, a
  newline and the elision marker. The line numbers of the records returned are strictly
  ascending.
\<close>

theorem extractCodeDecorators_record:
  assumes "i < length (split_str NL s)"
    and "decoratorMatch (split_str NL s ! i) = Some (t, d)"
    and "trim t \<noteq> []" and "trim d \<noteq> []"
  shows "\<lparr>type = trim t, description = trim d,
           snippet = elision @ [NL] @ join_str [NL] (contextWindow (split_str NL s) i) @ [NL] @ elision,
           lineNumber = i + 1\<rparr> \<in> set (extractCodeDecorators (JStr s)) \<and>
         sorted_wrt (<) (map lineNumber (extractCodeDecorators (JStr s)))"
proof
  let ?ls = "split_str NL s"
  let ?r = "\<lparr>type = trim t, description = trim d,
           snippet = elision @ [NL] @ join_str [NL] (contextWindow ?ls i) @ [NL] @ elision,
           lineNumber = i + 1\<rparr>"
  have "fst (visitLine ?ls (?ls ! i) i ([], [])) = [?r]"
    using visit_valid [OF assms(2-4), of ?ls i] by simp
  moreover have "i \<in> set [0..<length ?ls]" using assms(1) by simp
  ultimately show "?r \<in> set (extractCodeDecorators (JStr s))"
    unfolding extractCodeDecorators_def extractCodeDecorators_log_string
    by (auto intro!: bexI [of _ i])
next
  have "sorted_wrt (<) (filter (\<lambda>k. validMarker (split_str NL s ! k)) [0..<length (split_str NL s)])"
    by (rule sorted_wrt_filter) (simp add: sorted_wrt_upt)
  then show "sorted_wrt (<) (map lineNumber (extractCodeDecorators (JStr s)))"
    unfolding lineNumbers_string by (simp add: sorted_wrt_map)
qed


theorem extractCodeDecorators_record_witness:
  "9 < length (split_str NL annotated) \<and>
   decoratorMatch (split_str NL annotated ! 9) = Some (''api'', ''fetch user data'') \<and>
   trim ''api'' \<noteq> [] \<and> trim ''fetch user data'' \<noteq> [] \<and>
   \<lparr>type = ''api'', description = ''fetch user data'',
     snippet = elision @ [NL] @ ''l5'' @ [NL] @ ''l6'' @ [NL] @ ''l7'' @ [NL] @ ''l8'' @ [NL] @ ''l9'' @ [NL]
       @ ''// @need:api:fetch user data'' @ [NL] @ ''l11'' @ [NL] @ ''x @need:db: '' @ [NL] @ elision,
     lineNumber = 10\<rparr> \<in> set (extractCodeDecorators (JStr annotated)) \<and>
   sorted_wrt (<) (map lineNumber (extractCodeDecorators (JStr annotated)))"
proof -
  have h1: "9 < length (split_str NL annotated)" by code_simp
  have h2: "decoratorMatch (split_str NL annotated ! 9) = Some (''api'', ''fetch user data'')" by code_simp
  have h3: "trim ''api'' \<noteq> []" by code_simp
  have h4: "trim ''fetch user data'' \<noteq> []" by code_simp
  have v1: "trim ''api'' = ''api''" by code_simp
  have v2: "trim ''fetch user data'' = ''fetch user data''" by code_simp
  have v3: "join_str [NL] (contextWindow (split_str NL annotated) 9) =
      ''l5'' @ [NL] @ ''l6'' @ [NL] @ ''l7'' @ [NL] @ ''l8'' @ [NL] @ ''l9'' @ [NL]
       @ ''// @need:api:fetch user data'' @ [NL] @ ''l11'' @ [NL] @ ''x @need:db: ''" by code_simp
  from extractCodeDecorators_record [OF h1 h2 h3 h4] h1 h2 h3 h4
  show ?thesis unfolding v1 v2 v3 by simp
qed





section \<open>editGenUi: invalid input and exceptions\<close>

text \<open>
  Claim C2, as amended. For every falsy value given as \<^verbatim>\<open>tsx\<close> (null, undefined, the empty
  string, false, zero), \<open>editGenUi\<close> returns the empty string as text, with both \<open>ids\<close>
  fields false, and no exception is involved: the guard returns before the \<^verbatim>\<open>try\<close>. The
  returned text is the input itself only when the input is the empty string.
\<close>

theorem editGenUi_falsy:
  "\<not> truthy v \<Longrightarrow>
     editGenUi v = \<lparr>tsx = JStr [], ids = \<lparr>sections = None, views = None\<rparr>\<rparr> \<and>
     (tsx (editGenUi v) = v \<longleftrightarrow> v = JStr [])"
  by (auto simp: editGenUi_def)

theorem editGenUi_falsy_witness:
  "\<not> truthy (JStr []) \<and> \<not> truthy JUndefined \<and>
   editGenUi (JStr []) = \<lparr>tsx = JStr [], ids = \<lparr>sections = None, views = None\<rparr>\<rparr> \<and>
   tsx (editGenUi (JStr [])) = JStr [] \<and>
   editGenUi JUndefined = \<lparr>tsx = JStr [], ids = \<lparr>sections = None, views = None\<rparr>\<rparr> \<and>
   tsx (editGenUi JUndefined) \<noteq> JUndefined"
  using editGenUi_falsy [of "JStr []"] editGenUi_falsy [of JUndefined] by simp

text \<open>Claim C2 as it is written fails for null: the text returned is the empty string, not the
  null that was given.\<close>

theorem editGenUi_falsy_not_unchanged:
  "\<not> truthy JNull \<and> tsx (editGenUi JNull) = JStr [] \<and> tsx (editGenUi JNull) \<noteq> JNull"
  by (simp add: editGenUi_def)

text \<open>The \<^verbatim>\<open>try\<close> body raises exactly on the values that are not strings.\<close>

lemma editGenUi_try_raises: "(\<exists>e. editGenUi_try v = Inl e) \<longleftrightarrow> \<not> isString v"
  by (cases v) (simp_all add: editGenUi_try_def split: prod.splits)




section \<open>editGenUi: the filter phase\<close>

lemma includes_Nil [simp]: "includes_str [] sub = (sub = [])"
  by simp

lemma prefixes_nonempty [simp]: "sectionsPrefix \<noteq> []" "viewsPrefix \<noteq> []"
  by (simp_all add: sectionsPrefix_def viewsPrefix_def)





















text \<open>Adding to a set that keeps the order of first occurrence.\<close>

lemma fold_add_distinct:
  "distinct acc \<Longrightarrow> distinct (fold (\<lambda>x acc. if x \<in> set acc then acc else acc @ [x]) xs acc)"
  by (induction xs arbitrary: acc) simp_all


lemma newSet_distinct: "distinct (newSet xs)"
  unfolding newSet_def by (rule fold_add_distinct) simp















lemma newSet_Nil [simp]: "newSet [] = []"
  by (simp add: newSet_def)












section \<open>editGenUi: running it again\<close>

lemma filterLines_no_references:
  "\<forall>l\<in>set ls. \<not> includes_str l sectionsPrefix \<and> \<not> includes_str l viewsPrefix \<Longrightarrow>
     filterLines g ls = (g, ls)"
  by (induction ls arbitrary: g) (simp_all add: filterLine_def)

lemma editGenUi_no_references:
  assumes "\<forall>l\<in>set (split_str NL s). \<not> includes_str l sectionsPrefix \<and> \<not> includes_str l viewsPrefix"
  shows "editGenUi (JStr s) = \<lparr>tsx = JStr s, ids = \<lparr>sections = None, views = None\<rparr>\<rparr>"
proof (cases "s = []")
  case True
  then show ?thesis by (simp add: editGenUi_def)
next
  case False
  then show ?thesis
    by (simp add: editGenUi_def editGenUi_try_def filterLines_no_references [OF assms] substitute_def join_split)
qed

text \<open>So a second run changes nothing when the first result has no reference line left, and
  on a value that is not a string.\<close>

lemma editGenUi_rerun_without_references:
  assumes "tsx (editGenUi v) = JStr t"
    and "\<forall>l\<in>set (split_str NL t). \<not> includes_str l sectionsPrefix \<and> \<not> includes_str l viewsPrefix"
  shows "editGenUi (tsx (editGenUi v)) = \<lparr>tsx = tsx (editGenUi v), ids = \<lparr>sections = None, views = None\<rparr>\<rparr>"
  unfolding assms(1) by (rule editGenUi_no_references [OF assms(2)])

lemma editGenUi_rerun_not_string:
  assumes "\<not> isString v"
  shows "editGenUi (tsx (editGenUi v)) = \<lparr>tsx = tsx (editGenUi v), ids = \<lparr>sections = None, views = None\<rparr>\<rparr>"
  using assms by (cases v) (simp_all add: editGenUi_def editGenUi_try_def)

text \<open>
  Claim C5, where the code departs from it. The claim has every result free of reference
  lines, so that a second run returns both \<open>ids\<close> fields false and the same text. The
  identifier is put into the replacement template of \<^verbatim>\<open>replaceAll\<close> as it is, and a \<^verbatim>\<open>$&\<close> in it
  is replaced by the matched text: on the text below the first run writes a line that
  contains the views prefix, and the second run removes that line, returns a views array and
  another text.
\<close>

theorem editGenUi_dollar_rerun:
  "editGenUi (JStr dollarView) =
     \<lparr>tsx = JStr (viewImport @ [NL] @ ''<GenUiView id='' @ [CHR 0x22]
               @ ''<$&s/@/components/views/@/components/view'' @ [CHR 0x22]),
      ids = \<lparr>sections = None, views = Some [''$&s/@/components/view'']\<rparr>\<rparr> \<and>
   editGenUi (tsx (editGenUi (JStr dollarView))) =
     \<lparr>tsx = JStr (viewImport @ [NL] @ viewImport),
      ids = \<lparr>sections = None,
             views = Some [''id='' @ [CHR 0x22] @ ''<$&s/@/components/views/@/components/view'' @ [CHR 0x22]]\<rparr>\<rparr>"
  by code_simp


section \<open>parseYaml\<close>

text \<open>
  Claim C9. For any decoder, \<open>parseYaml\<close> returns null exactly when \<^verbatim>\<open>generated\<close> or its text is
  falsy, or the decoder raises on the text, or the decoder returns null or undefined; in every
  other case it returns the value the decoder returned. It is a total function: an exception
  of the decoder ends as null.
\<close>

theorem parseYaml_null:
  "(parseYaml decode generated = JNull \<longleftrightarrow>
      (\<not> truthy generated \<or> \<not> truthy (textOf generated)) \<or>
      (\<exists>e. decode (textOf generated) = Inl e) \<or>
      decode (textOf generated) = Inr JNull \<or> decode (textOf generated) = Inr JUndefined) \<and>
   (parseYaml decode generated \<noteq> JNull \<longrightarrow> decode (textOf generated) = Inr (parseYaml decode generated))"
  by (cases "decode (textOf generated)") (auto simp: parseYaml_def parseYaml_try_def)

theorem parseYaml_null_witness:
  "parseYaml exampleDecoder (JObj [(''text'', JStr ''a: 1'')]) = JStr ''a: 1'' \<and>
   exampleDecoder (textOf (JObj [(''text'', JStr ''a: 1'')])) = Inr (JStr ''a: 1'') \<and>
   parseYaml exampleDecoder (JObj [(''text'', JStr ''['')]) = JNull \<and>
   parseYaml exampleDecoder (JObj [(''text'', JStr ''null'')]) = JNull \<and>
   parseYaml exampleDecoder (JObj []) = JNull \<and>
   parseYaml exampleDecoder JUndefined = JNull"
  using parseYaml_null [of exampleDecoder "JObj [(''text'', JStr ''a: 1'')]"]
    parseYaml_null [of exampleDecoder "JObj [(''text'', JStr ''['')]"]
    parseYaml_null [of exampleDecoder "JObj [(''text'', JStr ''null'')]"]
    parseYaml_null [of exampleDecoder "JObj []"]
    parseYaml_null [of exampleDecoder JUndefined]
  by (auto simp: exampleDecoder_def)

end
